theory Spec2Isabelle
  imports Complex_Main "HOL-Library.Word"
begin

unbundle bit_operations_syntax

section \<open>Python values, errors and list indexing\<close>

text \<open>
  The two programs are \<^verbatim>\<open>task01.py\<close> (class \<^verbatim>\<open>BloomFilter\<close>) and \<^verbatim>\<open>task02.py\<close>
  (class \<^verbatim>\<open>HyperLogLog\<close>). Python integers are unbounded and are modelled by \<open>int\<close>;
  Python floats are idealised as \<open>real\<close> (no rounding, overflow or underflow); lists have
  no size limit. An exception is a value \<open>Inl e\<close> of a sum type.
\<close>

datatype py_error = ValueError | TypeError | IndexError | ZeroDivisionError

text \<open>Constructor arguments are dynamically typed.\<close>

datatype py_value = PyNone | PyBool bool | PyInt int | PyFloat real | PyStr string

text \<open>
  \<^verbatim>\<open>isinstance(v, int)\<close> holds for integers and for booleans (\<^verbatim>\<open>bool\<close> is a subclass of
  \<^verbatim>\<open>int\<close>, with \<^verbatim>\<open>True == 1\<close> and \<^verbatim>\<open>False == 0\<close> in all arithmetic); \<open>as_int\<close> gives the
  integer such a value stands for.
\<close>

fun as_int :: "py_value \<Rightarrow> int option" where
  "as_int (PyInt n) = Some n"
| "as_int (PyBool b) = Some (if b then 1 else 0)"
| "as_int PyNone = None"
| "as_int (PyFloat x) = None"
| "as_int (PyStr s) = None"

text \<open>
  An item handed to \<^verbatim>\<open>add\<close> or \<^verbatim>\<open>check\<close> is either \<^verbatim>\<open>None\<close> or a value with a textual form:
  \<open>Some bs\<close> is an item whose \<^verbatim>\<open>str(item)\<close>, encoded as UTF-8, is the byte string \<open>bs\<close>.
\<close>

type_synonym item = "string option"

text \<open>\<^verbatim>\<open>str(item)\<close>, as UTF-8 bytes: \<^verbatim>\<open>str(None)\<close> is the four letters \<^verbatim>\<open>None\<close>.\<close>

definition py_str :: "item \<Rightarrow> string" where
  "py_str it = (case it of None \<Rightarrow> ''None'' | Some bs \<Rightarrow> bs)"

text \<open>
  \<^verbatim>\<open>xs[i]\<close> and \<^verbatim>\<open>xs[i] = v\<close>: an index below zero counts from the end, an index outside
  the list raises \<^verbatim>\<open>IndexError\<close>.
\<close>

definition py_index :: "'a list \<Rightarrow> int \<Rightarrow> nat option" where
  "py_index xs i =
     (if 0 \<le> i \<and> i < int (length xs) then Some (nat i)
      else if i < 0 \<and> - int (length xs) \<le> i then Some (nat (int (length xs) + i))
      else None)"

definition getitem :: "'a list \<Rightarrow> int \<Rightarrow> py_error + 'a" where
  "getitem xs i = (case py_index xs i of None \<Rightarrow> Inl IndexError | Some k \<Rightarrow> Inr (xs ! k))"

definition setitem :: "'a list \<Rightarrow> int \<Rightarrow> 'a \<Rightarrow> py_error + 'a list" where
  "setitem xs i v = (case py_index xs i of None \<Rightarrow> Inl IndexError | Some k \<Rightarrow> Inr (xs[k := v]))"

section \<open>task01.py: the Bloom filter\<close>

record BloomFilter =
  bf_size :: int
  num_hashes :: int
  bit_array :: "int list"

text \<open>\<^verbatim>\<open>BloomFilter.__init__\<close>: both checks raise \<^verbatim>\<open>ValueError\<close>; the list is built last.\<close>

definition BloomFilter_init :: "py_value \<Rightarrow> py_value \<Rightarrow> py_error + BloomFilter" where
  "BloomFilter_init size_arg num_arg =
     (case as_int size_arg of
        None \<Rightarrow> Inl ValueError
      | Some sz \<Rightarrow>
          if \<not> sz > 0 then Inl ValueError
          else (case as_int num_arg of
                  None \<Rightarrow> Inl ValueError
                | Some k \<Rightarrow>
                    if \<not> k > 0 then Inl ValueError
                    else Inr \<lparr>bf_size = sz, num_hashes = k, bit_array = replicate (nat sz) 0\<rparr>))"

text \<open>
  \<^verbatim>\<open>hashlib.md5\<close> and \<^verbatim>\<open>hashlib.sha256\<close> belong to Python's standard library, not to the
  program: the functions below take them as parameters \<open>md5\<close> and \<open>sha256\<close>, from a byte
  string to the non-negative integer \<^verbatim>\<open>int(hexdigest, 16)\<close>.

  The loop of \<^verbatim>\<open>_get_hashes\<close> over \<^verbatim>\<open>range(num_hashes)\<close>; \<^verbatim>\<open>%\<close> raises on a zero modulus
  and otherwise rounds as \<open>mod\<close> on \<open>int\<close> does.
\<close>

fun hashes_loop :: "int \<Rightarrow> int \<Rightarrow> int \<Rightarrow> int list \<Rightarrow> int list \<Rightarrow> py_error + int list" where
  "hashes_loop hash1 hash2 sz [] hashes = Inr hashes"
| "hashes_loop hash1 hash2 sz (i # rest) hashes =
     (if sz = 0 then Inl ZeroDivisionError
      else hashes_loop hash1 hash2 sz rest (hashes @ [(hash1 + i * hash2) mod sz]))"

definition BloomFilter_get_hashes ::
  "(string \<Rightarrow> nat) \<Rightarrow> (string \<Rightarrow> nat) \<Rightarrow> BloomFilter \<Rightarrow> item \<Rightarrow> py_error + int list" where
  "BloomFilter_get_hashes md5 sha256 self it =
     (case it of
        None \<Rightarrow> Inr []
      | Some item_bytes \<Rightarrow>
          hashes_loop (int (md5 item_bytes)) (int (sha256 item_bytes)) (bf_size self)
            [0 .. num_hashes self - 1] [])"

text \<open>The loop of \<^verbatim>\<open>add\<close>: \<^verbatim>\<open>self.bit_array[index] = 1\<close> for each index in turn.\<close>

fun set_bits :: "int list \<Rightarrow> int list \<Rightarrow> py_error + int list" where
  "set_bits bits [] = Inr bits"
| "set_bits bits (index # rest) =
     (case setitem bits index 1 of Inl e \<Rightarrow> Inl e | Inr bits' \<Rightarrow> set_bits bits' rest)"

definition BloomFilter_add ::
  "(string \<Rightarrow> nat) \<Rightarrow> (string \<Rightarrow> nat) \<Rightarrow> BloomFilter \<Rightarrow> item \<Rightarrow> py_error + BloomFilter" where
  "BloomFilter_add md5 sha256 self it =
     (case BloomFilter_get_hashes md5 sha256 self it of
        Inl e \<Rightarrow> Inl e
      | Inr indices \<Rightarrow>
          (case set_bits (bit_array self) indices of
             Inl e \<Rightarrow> Inl e
           | Inr bits \<Rightarrow> Inr (self\<lparr>bit_array := bits\<rparr>)))"

text \<open>The loop of \<^verbatim>\<open>check\<close>: the first index whose bit is 0 answers \<^verbatim>\<open>False\<close>.\<close>

fun bits_loop :: "int list \<Rightarrow> int list \<Rightarrow> py_error + bool" where
  "bits_loop bits [] = Inr True"
| "bits_loop bits (index # rest) =
     (case getitem bits index of
        Inl e \<Rightarrow> Inl e
      | Inr b \<Rightarrow> if b = 0 then Inr False else bits_loop bits rest)"

definition BloomFilter_check ::
  "(string \<Rightarrow> nat) \<Rightarrow> (string \<Rightarrow> nat) \<Rightarrow> BloomFilter \<Rightarrow> item \<Rightarrow> py_error + bool" where
  "BloomFilter_check md5 sha256 self it =
     (case BloomFilter_get_hashes md5 sha256 self it of
        Inl e \<Rightarrow> Inl e
      | Inr indices \<Rightarrow>
          if indices = [] \<and> it = None then Inr False
          else bits_loop (bit_array self) indices)"

text \<open>A run of \<^verbatim>\<open>add\<close> calls, as the driver's \<^verbatim>\<open>for password in ...: bloom.add(password)\<close>.\<close>

fun BloomFilter_add_all ::
  "(string \<Rightarrow> nat) \<Rightarrow> (string \<Rightarrow> nat) \<Rightarrow> BloomFilter \<Rightarrow> item list \<Rightarrow> py_error + BloomFilter" where
  "BloomFilter_add_all md5 sha256 self [] = Inr self"
| "BloomFilter_add_all md5 sha256 self (it # rest) =
     (case BloomFilter_add md5 sha256 self it of
        Inl e \<Rightarrow> Inl e
      | Inr self' \<Rightarrow> BloomFilter_add_all md5 sha256 self' rest)"

text \<open>
  The states the constructor and \<^verbatim>\<open>add\<close> produce: positive parameters, a list of
  \<open>bf_size\<close> entries, each 0 or 1.
\<close>

definition bf_wf :: "BloomFilter \<Rightarrow> bool" where
  "bf_wf self \<longleftrightarrow>
     0 < bf_size self \<and> 0 < num_hashes self
     \<and> int (length (bit_array self)) = bf_size self
     \<and> list_all (\<lambda>b. b = 0 \<or> b = 1) (bit_array self)"

text \<open>The probe positions as the specification writes them.\<close>

definition probe :: "nat \<Rightarrow> nat \<Rightarrow> int \<Rightarrow> int \<Rightarrow> int" where
  "probe h1 h2 sz i = (int h1 + i * int h2) mod sz"

text \<open>
  Stand-ins for \<^verbatim>\<open>hashlib\<close> in concrete evaluations: the digests \<^verbatim>\<open>hashlib.md5\<close> and
  \<^verbatim>\<open>hashlib.sha256\<close> give for two literals of \<^verbatim>\<open>main()\<close>, the empty password and
  \<^verbatim>\<open>password123\<close>. Every general theorem below is for arbitrary \<open>md5\<close> and \<open>sha256\<close>.
\<close>

definition md5_of_literal :: "string \<Rightarrow> nat" where
  "md5_of_literal bs =
     (if bs = [] then 0xd41d8cd98f00b204e9800998ecf8427e
      else if bs = ''password123'' then 0x482c811da5d5b4bc6d497ffa98491e38
      else 0)"

definition sha256_of_literal :: "string \<Rightarrow> nat" where
  "sha256_of_literal bs =
     (if bs = [] then 0xe3b0c44298fc1c149afbf4c8996fb92427ae41e4649b934ca495991b7852b855
      else if bs = ''password123''
        then 0xef92b778bafe771e89245b89ecbc08a44a4e166c06659911881f383d4473e94f
      else 0)"

section \<open>task02.py: the HyperLogLog estimator\<close>

record HyperLogLog =
  hll_p :: int
  hll_m :: int
  registers :: "int list"
  alpha :: real

text \<open>\<^verbatim>\<open>_get_alpha\<close>; the division \<^verbatim>\<open>1.079 / self.m\<close> raises on \<^verbatim>\<open>m == 0\<close>.\<close>

definition HyperLogLog_get_alpha :: "int \<Rightarrow> py_error + real" where
  "HyperLogLog_get_alpha mm =
     (if mm = 16 then Inr 0.673
      else if mm = 32 then Inr 0.697
      else if mm = 64 then Inr 0.709
      else if mm = 0 then Inl ZeroDivisionError
      else Inr (0.7213 / (1 + 1.079 / real_of_int mm)))"

text \<open>
  \<^verbatim>\<open>HyperLogLog.__init__\<close> checks nothing itself: \<^verbatim>\<open>1 << p\<close> raises \<^verbatim>\<open>TypeError\<close> unless
  \<^verbatim>\<open>p\<close> is an integer (or boolean) and \<^verbatim>\<open>ValueError\<close> (negative shift count) when
  \<^verbatim>\<open>p < 0\<close>; the register list is built after it.
\<close>

definition HyperLogLog_init :: "py_value \<Rightarrow> py_error + HyperLogLog" where
  "HyperLogLog_init p_arg =
     (case as_int p_arg of
        None \<Rightarrow> Inl TypeError
      | Some pp \<Rightarrow>
          if pp < 0 then Inl ValueError
          else (let mm = push_bit (nat pp) (1::int) in
                case HyperLogLog_get_alpha mm of
                  Inl e \<Rightarrow> Inl e
                | Inr a \<Rightarrow>
                    Inr \<lparr>hll_p = pp, hll_m = mm, registers = replicate (nat mm) 0, alpha = a\<rparr>))"

text \<open>
  The \<^verbatim>\<open>while\<close> loop of \<^verbatim>\<open>_rho\<close>. Taken alone it does not end on \<^verbatim>\<open>w == 0\<close>, so its
  result is optional: \<open>None\<close> stands for a loop that never returns.
\<close>

partial_function (option) rho_loop :: "int \<Rightarrow> int \<Rightarrow> int option" where
  "rho_loop rho w = (if w AND 1 = 0 then rho_loop (rho + 1) (drop_bit 1 w) else Some rho)"

definition HyperLogLog_rho :: "HyperLogLog \<Rightarrow> int \<Rightarrow> int option" where
  "HyperLogLog_rho self w = (if w = 0 then Some (32 - hll_p self + 1) else rho_loop 1 w)"

text \<open>
  \<^verbatim>\<open>mmh3.hash(text, signed=False)\<close> comes from the \<^verbatim>\<open>mmh3\<close> package: \<^verbatim>\<open>add\<close> takes it as the
  parameter \<open>hash32\<close>, from the UTF-8 bytes of the text to an unsigned 32-bit value.
  The outer \<open>option\<close> is the loop of \<^verbatim>\<open>_rho\<close>; \<^verbatim>\<open>x >> self.p\<close> raises on a negative count;
  the right-hand side \<^verbatim>\<open>max(self.registers[j], self._rho(w))\<close> is evaluated before the
  store.
\<close>

definition HyperLogLog_add ::
  "(string \<Rightarrow> 32 word) \<Rightarrow> HyperLogLog \<Rightarrow> item \<Rightarrow> (py_error + HyperLogLog) option" where
  "HyperLogLog_add hash32 self it =
     (let x = uint (hash32 (py_str it));
          j = x AND (hll_m self - 1)
      in if hll_p self < 0 then Some (Inl ValueError)
         else (let w = drop_bit (nat (hll_p self)) x
               in case getitem (registers self) j of
                    Inl e \<Rightarrow> Some (Inl e)
                  | Inr r \<Rightarrow>
                      (case HyperLogLog_rho self w of
                         None \<Rightarrow> None
                       | Some v \<Rightarrow>
                           (case setitem (registers self) j (max r v) of
                              Inl e \<Rightarrow> Some (Inl e)
                            | Inr regs \<Rightarrow> Some (Inr (self\<lparr>registers := regs\<rparr>))))))"

text \<open>A run of \<^verbatim>\<open>add\<close> calls, as \<^verbatim>\<open>for ip in ips: hll.add(ip)\<close> in \<^verbatim>\<open>hll_count\<close>.\<close>

fun HyperLogLog_add_all ::
  "(string \<Rightarrow> 32 word) \<Rightarrow> HyperLogLog \<Rightarrow> item list \<Rightarrow> (py_error + HyperLogLog) option" where
  "HyperLogLog_add_all hash32 self [] = Some (Inr self)"
| "HyperLogLog_add_all hash32 self (it # rest) =
     (case HyperLogLog_add hash32 self it of
        None \<Rightarrow> None
      | Some (Inl e) \<Rightarrow> Some (Inl e)
      | Some (Inr self') \<Rightarrow> HyperLogLog_add_all hash32 self' rest)"

text \<open>\<^verbatim>\<open>math.log\<close> raises \<^verbatim>\<open>ValueError\<close> (math domain error) unless its argument is positive.\<close>

definition math_log :: "real \<Rightarrow> py_error + real" where
  "math_log x = (if 0 < x then Inr (ln x) else Inl ValueError)"

text \<open>\<^verbatim>\<open>sum(2 ** -r for r in self.registers)\<close>.\<close>

definition harmonic_sum :: "int list \<Rightarrow> real" where
  "harmonic_sum regs = sum_list (map (\<lambda>r. 2 powi (- r)) regs)"

text \<open>The small-range and the large-range steps of \<^verbatim>\<open>count\<close>, in the order of the source.\<close>

definition small_range :: "int \<Rightarrow> real \<Rightarrow> nat \<Rightarrow> py_error + real" where
  "small_range mm E V =
     (if V > 0 then
        (case math_log (real_of_int mm / real V) of
           Inl e \<Rightarrow> Inl e
         | Inr l \<Rightarrow>
             (let E_star = real_of_int mm * l
              in if E \<le> 5 * real_of_int mm / 2 then Inr E_star else Inr E))
      else Inr E)"

definition large_range :: "real \<Rightarrow> py_error + real" where
  "large_range E =
     (let H = (1 / 30) * 2 ^ 32
      in if E > H then
           (case math_log (1 - E / 2 ^ 32) of
              Inl e \<Rightarrow> Inl e
            | Inr l \<Rightarrow> Inr (- (2 ^ 32) * l))
         else Inr E)"

definition HyperLogLog_count :: "HyperLogLog \<Rightarrow> py_error + real" where
  "HyperLogLog_count self =
     (let Z = harmonic_sum (registers self)
      in if Z = 0 then Inl ZeroDivisionError
         else (let E = alpha self * real_of_int (hll_m self) * real_of_int (hll_m self) / Z;
                   V = count_list (registers self) 0
               in case small_range (hll_m self) E V of
                    Inl e \<Rightarrow> Inl e
                  | Inr E' \<Rightarrow> large_range E'))"

text \<open>
  The states the constructor and \<^verbatim>\<open>add\<close> produce: \<open>m = 2 ^ p\<close> registers.
\<close>

definition hll_wf :: "HyperLogLog \<Rightarrow> bool" where
  "hll_wf self \<longleftrightarrow>
     0 \<le> hll_p self \<and> hll_m self = 2 ^ nat (hll_p self)
     \<and> int (length (registers self)) = hll_m self"

text \<open>The register range: every register between 0 and the sentinel \<open>32 - p + 1\<close>.\<close>

definition regs_bounded :: "HyperLogLog \<Rightarrow> bool" where
  "regs_bounded self \<longleftrightarrow>
     list_all (\<lambda>r. 0 \<le> r \<and> r \<le> 32 - hll_p self + 1) (registers self)"

text \<open>
  The rank as the specification words it: \<open>r\<close> is the 1-based position of the
  least-significant set bit of \<open>w\<close>.
\<close>

definition lsb_position :: "int \<Rightarrow> int \<Rightarrow> bool" where
  "lsb_position w r \<longleftrightarrow>
     1 \<le> r \<and> bit w (nat (r - 1)) \<and> (\<forall>i \<in> {..< nat (r - 1)}. \<not> bit w i)"

text \<open>
  The estimate as the specification words it, for the constant \<open>a\<close>, the register count
  \<open>mm\<close> and the register list \<open>regs\<close>: the raw estimate with the small-range
  correction, then the large-range correction.
\<close>

definition spec_small_range :: "real \<Rightarrow> int \<Rightarrow> int list \<Rightarrow> real" where
  "spec_small_range a mm regs =
     (let Z = (\<Sum>r \<leftarrow> regs. 2 powi (- r));
          E = a * (real_of_int mm)\<^sup>2 / Z;
          V = length (filter (\<lambda>r. r = 0) regs)
      in if V > 0 \<and> E \<le> 2.5 * real_of_int mm
         then real_of_int mm * ln (real_of_int mm / real V) else E)"

definition spec_estimate :: "real \<Rightarrow> int \<Rightarrow> int list \<Rightarrow> real" where
  "spec_estimate a mm regs =
     (let E = spec_small_range a mm regs
      in if E > 2 ^ 32 / 30 then - (2 ^ 32) * ln (1 - E / 2 ^ 32) else E)"

text \<open>
  MurmurHash3 (x86, 32 bit, seed 0), the function behind \<^verbatim>\<open>mmh3.hash\<close>, for concrete
  evaluations: blocks of four bytes read little-endian, then the tail, the length and
  the final mix.
\<close>

definition rotl32 :: "32 word \<Rightarrow> nat \<Rightarrow> 32 word" where
  "rotl32 x r = push_bit r x OR drop_bit (32 - r) x"

definition byte32 :: "char \<Rightarrow> 32 word" where
  "byte32 c = of_nat (of_char c)"

definition mix_k :: "32 word \<Rightarrow> 32 word" where
  "mix_k k = rotl32 (k * 0xcc9e2d51) 15 * 0x1b873593"

fun murmur_blocks :: "32 word \<Rightarrow> string \<Rightarrow> 32 word" where
  "murmur_blocks h (a # b # c # d # rest) =
     murmur_blocks
       (rotl32 (h XOR mix_k (byte32 a OR push_bit 8 (byte32 b) OR push_bit 16 (byte32 c)
                              OR push_bit 24 (byte32 d))) 13 * 5 + 0xe6546b64) rest"
| "murmur_blocks h [a, b, c] =
     h XOR mix_k (byte32 a XOR push_bit 8 (byte32 b) XOR push_bit 16 (byte32 c))"
| "murmur_blocks h [a, b] = h XOR mix_k (byte32 a XOR push_bit 8 (byte32 b))"
| "murmur_blocks h [a] = h XOR mix_k (byte32 a)"
| "murmur_blocks h [] = h"

definition fmix32 :: "32 word \<Rightarrow> 32 word" where
  "fmix32 h0 =
     (let h1 = (h0 XOR drop_bit 16 h0) * 0x85ebca6b;
          h2 = (h1 XOR drop_bit 13 h1) * 0xc2b2ae35
      in h2 XOR drop_bit 16 h2)"

definition mmh3_hash :: "string \<Rightarrow> 32 word" where
  "mmh3_hash bs = fmix32 (murmur_blocks 0 bs XOR of_nat (length bs))"

section \<open>Bloom filter: indices, bits and the invariant\<close>

lemma py_index_in_range:
  "0 \<le> i \<Longrightarrow> i < int (length xs) \<Longrightarrow> py_index xs i = Some (nat i)"
  by (simp add: py_index_def)

lemma getitem_in_range:
  "0 \<le> i \<Longrightarrow> i < int (length xs) \<Longrightarrow> getitem xs i = Inr (xs ! nat i)"
  by (simp add: getitem_def py_index_in_range)

lemma setitem_in_range:
  "0 \<le> i \<Longrightarrow> i < int (length xs) \<Longrightarrow> setitem xs i v = Inr (xs[nat i := v])"
  by (simp add: setitem_def py_index_in_range)

lemma hashes_loop_eq:
  "sz \<noteq> 0 \<Longrightarrow>
   hashes_loop h1 h2 sz idxs acc = Inr (acc @ map (\<lambda>i. (h1 + i * h2) mod sz) idxs)"
  by (induction idxs arbitrary: acc) simp_all

lemma get_hashes_None: "BloomFilter_get_hashes md5 sha256 self None = Inr []"
  by (simp add: BloomFilter_get_hashes_def)

lemma get_hashes_Some:
  "bf_size self \<noteq> 0 \<Longrightarrow>
   BloomFilter_get_hashes md5 sha256 self (Some bs) =
     Inr (map (probe (md5 bs) (sha256 bs) (bf_size self)) [0 .. num_hashes self - 1])"
  by (simp add: BloomFilter_get_hashes_def hashes_loop_eq probe_def)

lemma probe_range: "0 < sz \<Longrightarrow> 0 \<le> probe h1 h2 sz i \<and> probe h1 h2 sz i < sz"
  by (simp add: probe_def)

lemma set_bits_eq:
  "list_all (\<lambda>i. 0 \<le> i \<and> i < int (length bits)) idxs \<Longrightarrow>
   \<exists>bits'. set_bits bits idxs = Inr bits' \<and> length bits' = length bits
     \<and> (\<forall>n < length bits. bits' ! n = (if int n \<in> set idxs then 1 else bits ! n))"
proof (induction idxs arbitrary: bits)
  case Nil
  then show ?case by simp
next
  case (Cons i rest)
  from Cons.prems have i: "0 \<le> i" "i < int (length bits)"
    and rest: "list_all (\<lambda>i. 0 \<le> i \<and> i < int (length bits)) rest"
    by simp_all
  from rest have "list_all (\<lambda>k. 0 \<le> k \<and> k < int (length (bits[nat i := 1]))) rest"
    by simp
  from Cons.IH [OF this] obtain bits' where
    b: "set_bits (bits[nat i := 1]) rest = Inr bits'" "length bits' = length bits"
       "\<forall>n < length bits. bits' ! n = (if int n \<in> set rest then 1 else bits[nat i := 1] ! n)"
    by auto
  have "\<forall>n < length bits. bits' ! n = (if int n \<in> set (i # rest) then 1 else bits ! n)"
  proof (intro allI impI)
    fix n assume n: "n < length bits"
    show "bits' ! n = (if int n \<in> set (i # rest) then 1 else bits ! n)"
    proof (cases "n = nat i")
      case True
      with i n b(3) show ?thesis by simp
    next
      case False
      with i have "int n \<noteq> i" by auto
      with False n b(3) show ?thesis by simp
    qed
  qed
  with b i show ?case by (simp add: setitem_in_range)
qed

lemma bits_loop_eq:
  "list_all (\<lambda>i. 0 \<le> i \<and> i < int (length bits)) idxs \<Longrightarrow>
   bits_loop bits idxs = Inr (list_all (\<lambda>i. bits ! nat i \<noteq> 0) idxs)"
  by (induction idxs) (simp_all add: getitem_in_range)

lemma probes_in_range:
  "0 < sz \<Longrightarrow> int (length bits) = sz \<Longrightarrow>
   list_all (\<lambda>i. 0 \<le> i \<and> i < int (length bits)) (map (probe h1 h2 sz) idxs)"
  by (simp add: list_all_iff probe_range)


lemma bf_add_None: "BloomFilter_add md5 sha256 self None = Inr self"
  by (simp add: BloomFilter_add_def get_hashes_None)

lemma bf_check_None: "BloomFilter_check md5 sha256 self None = Inr False"
  by (simp add: BloomFilter_check_def get_hashes_None)

lemma set_upto_image:
  "int n \<in> f ` set [0 .. k - 1] \<longleftrightarrow> (\<exists>i. 0 \<le> i \<and> i < k \<and> f i = int n)"
proof
  assume "int n \<in> f ` set [0 .. k - 1]"
  then obtain i where "i \<in> set [0 .. k - 1]" "f i = int n" by auto
  then show "\<exists>i. 0 \<le> i \<and> i < k \<and> f i = int n" by auto
next
  assume "\<exists>i. 0 \<le> i \<and> i < k \<and> f i = int n"
  then obtain i where i: "0 \<le> i" "i < k" "f i = int n" by blast
  then have "i \<in> set [0 .. k - 1]" by simp
  with i(3) show "int n \<in> f ` set [0 .. k - 1]" by (metis imageI)
qed

lemma bf_add_Some:
  assumes "bf_wf self"
  shows "\<exists>bits. BloomFilter_add md5 sha256 self (Some bs) = Inr (self\<lparr>bit_array := bits\<rparr>)
           \<and> length bits = length (bit_array self)
           \<and> (\<forall>n < length (bit_array self).
                 bits ! n =
                   (if \<exists>i. 0 \<le> i \<and> i < num_hashes self
                          \<and> probe (md5 bs) (sha256 bs) (bf_size self) i = int n
                    then 1 else bit_array self ! n))"
proof -
  let ?idxs = "map (probe (md5 bs) (sha256 bs) (bf_size self)) [0 .. num_hashes self - 1]"
  from assms have sz: "0 < bf_size self" "int (length (bit_array self)) = bf_size self"
    by (simp_all add: bf_wf_def)
  then have gh: "BloomFilter_get_hashes md5 sha256 self (Some bs) = Inr ?idxs"
    by (simp add: get_hashes_Some)
  from sz have "list_all (\<lambda>i. 0 \<le> i \<and> i < int (length (bit_array self))) ?idxs"
    by (rule probes_in_range)
  from set_bits_eq [OF this] obtain bits where
    b: "set_bits (bit_array self) ?idxs = Inr bits" "length bits = length (bit_array self)"
       "\<forall>n < length (bit_array self).
          bits ! n = (if int n \<in> set ?idxs then 1 else bit_array self ! n)"
    by blast
  have add: "BloomFilter_add md5 sha256 self (Some bs) = Inr (self\<lparr>bit_array := bits\<rparr>)"
    by (simp add: BloomFilter_add_def gh b(1))
  from b(3) have "\<forall>n < length (bit_array self).
      bits ! n = (if \<exists>i. 0 \<le> i \<and> i < num_hashes self
                          \<and> probe (md5 bs) (sha256 bs) (bf_size self) i = int n
                  then 1 else bit_array self ! n)"
    by (simp only: set_map set_upto_image)
  with add b(2) show ?thesis by blast
qed

lemma bf_check_Some:
  assumes "bf_wf self"
  shows "BloomFilter_check md5 sha256 self (Some bs) =
           Inr (\<forall>i. 0 \<le> i \<and> i < num_hashes self \<longrightarrow>
                  bit_array self ! nat (probe (md5 bs) (sha256 bs) (bf_size self) i) = 1)"
proof -
  let ?pr = "probe (md5 bs) (sha256 bs) (bf_size self)"
  let ?idxs = "map ?pr [0 .. num_hashes self - 1]"
  from assms have sz: "0 < bf_size self" "int (length (bit_array self)) = bf_size self"
    and k: "0 < num_hashes self"
    and bits: "list_all (\<lambda>b. b = 0 \<or> b = 1) (bit_array self)"
    by (simp_all add: bf_wf_def)
  from sz have gh: "BloomFilter_get_hashes md5 sha256 self (Some bs) = Inr ?idxs"
    by (simp add: get_hashes_Some)
  from sz have rng: "list_all (\<lambda>i. 0 \<le> i \<and> i < int (length (bit_array self))) ?idxs"
    by (rule probes_in_range)
  have chk: "BloomFilter_check md5 sha256 self (Some bs) =
               Inr (list_all (\<lambda>i. bit_array self ! nat i \<noteq> 0) ?idxs)"
    by (simp add: BloomFilter_check_def gh bits_loop_eq [OF rng])
  have "list_all (\<lambda>i. bit_array self ! nat i \<noteq> 0) ?idxs \<longleftrightarrow>
        (\<forall>i. 0 \<le> i \<and> i < num_hashes self \<longrightarrow> bit_array self ! nat (?pr i) = 1)"
  proof -
    have one: "bit_array self ! nat (?pr i) \<noteq> 0 \<longleftrightarrow> bit_array self ! nat (?pr i) = 1" for i
    proof -
      from sz probe_range [of "bf_size self" "md5 bs" "sha256 bs" i]
      have "nat (?pr i) < length (bit_array self)" by linarith
      with bits have "bit_array self ! nat (?pr i) = 0 \<or> bit_array self ! nat (?pr i) = 1"
        by (simp add: list_all_length)
      then show ?thesis by auto
    qed
    show ?thesis by (auto simp: list_all_iff one)
  qed
  with chk show ?thesis by simp
qed


lemma probe_index:
  assumes "0 < sz" and "int (length bits) = sz"
  shows "nat (probe h1 h2 sz i) < length bits"
    and "int (nat (probe h1 h2 sz i)) = probe h1 h2 sz i"
  using assms probe_range [of sz h1 h2 i] by linarith+

lemma bf_add_step:
  assumes "bf_wf self"
  shows "\<exists>self'. BloomFilter_add md5 sha256 self it = Inr self' \<and> bf_wf self'
           \<and> bf_size self' = bf_size self \<and> num_hashes self' = num_hashes self
           \<and> (\<forall>n < length (bit_array self).
                 bit_array self ! n = 1 \<longrightarrow> bit_array self' ! n = 1)"
proof (cases it)
  case None
  with assms show ?thesis by (simp add: bf_add_None)
next
  case (Some bs)
  from bf_add_Some [OF assms, of md5 sha256 bs] obtain bits where
    b: "BloomFilter_add md5 sha256 self (Some bs) = Inr (self\<lparr>bit_array := bits\<rparr>)"
       "length bits = length (bit_array self)"
       "\<forall>n < length (bit_array self).
          bits ! n = (if \<exists>i. 0 \<le> i \<and> i < num_hashes self
                              \<and> probe (md5 bs) (sha256 bs) (bf_size self) i = int n
                      then 1 else bit_array self ! n)"
    by blast
  from assms have old: "\<forall>n < length (bit_array self). bit_array self ! n = 0 \<or> bit_array self ! n = 1"
    by (simp add: bf_wf_def list_all_length)
  have "\<forall>n < length bits. bits ! n = 0 \<or> bits ! n = 1"
    using b(2,3) old by auto
  then have "list_all (\<lambda>b. b = 0 \<or> b = 1) bits"
    by (simp add: list_all_length)
  with assms b(2) have wf: "bf_wf (self\<lparr>bit_array := bits\<rparr>)"
    by (simp add: bf_wf_def)
  have "\<forall>n < length (bit_array self). bit_array self ! n = 1 \<longrightarrow> bits ! n = 1"
    using b(3) by auto
  with b(1) wf Some show ?thesis by simp
qed

lemma bf_wf_length: "bf_wf self \<Longrightarrow> int (length (bit_array self)) = bf_size self"
  by (simp add: bf_wf_def)

lemma bf_add_all_steps:
  assumes "bf_wf self"
  shows "\<exists>self'. BloomFilter_add_all md5 sha256 self its = Inr self' \<and> bf_wf self'
           \<and> bf_size self' = bf_size self \<and> num_hashes self' = num_hashes self
           \<and> (\<forall>n < length (bit_array self).
                 bit_array self ! n = 1 \<longrightarrow> bit_array self' ! n = 1)"
  using assms
proof (induction its arbitrary: self)
  case Nil
  then show ?case by simp
next
  case (Cons it rest)
  from bf_add_step [OF Cons.prems, of md5 sha256 it] obtain s1 where
    s1: "BloomFilter_add md5 sha256 self it = Inr s1" "bf_wf s1"
        "bf_size s1 = bf_size self" "num_hashes s1 = num_hashes self"
        "\<forall>n < length (bit_array self). bit_array self ! n = 1 \<longrightarrow> bit_array s1 ! n = 1"
    by blast
  from Cons.IH [OF s1(2)] obtain s2 where
    s2: "BloomFilter_add_all md5 sha256 s1 rest = Inr s2" "bf_wf s2"
        "bf_size s2 = bf_size s1" "num_hashes s2 = num_hashes s1"
        "\<forall>n < length (bit_array s1). bit_array s1 ! n = 1 \<longrightarrow> bit_array s2 ! n = 1"
    by blast
  from Cons.prems s1(2,3) have "length (bit_array s1) = length (bit_array self)"
    using bf_wf_length [of self] bf_wf_length [of s1] by simp
  with s1(5) s2(5) have "\<forall>n < length (bit_array self).
      bit_array self ! n = 1 \<longrightarrow> bit_array s2 ! n = 1"
    by simp
  with s1 s2 show ?case by simp
qed

lemma bf_check_after_add:
  assumes "bf_wf self"
    and "BloomFilter_add md5 sha256 self (Some bs) = Inr s1"
  shows "BloomFilter_check md5 sha256 s1 (Some bs) = Inr True"
proof -
  from bf_add_Some [OF assms(1), of md5 sha256 bs] assms(2) obtain bits where
    b: "s1 = self\<lparr>bit_array := bits\<rparr>" "length bits = length (bit_array self)"
       "\<forall>n < length (bit_array self).
          bits ! n = (if \<exists>i. 0 \<le> i \<and> i < num_hashes self
                              \<and> probe (md5 bs) (sha256 bs) (bf_size self) i = int n
                      then 1 else bit_array self ! n)"
    by auto
  from bf_add_step [OF assms(1), of md5 sha256 "Some bs"] assms(2) have wf: "bf_wf s1"
    by auto
  from assms(1) have sz: "0 < bf_size self" "int (length (bit_array self)) = bf_size self"
    by (simp_all add: bf_wf_def)
  have "bit_array s1 ! nat (probe (md5 bs) (sha256 bs) (bf_size s1) i) = 1"
    if i: "0 \<le> i \<and> i < num_hashes s1" for i
  proof -
    let ?n = "nat (probe (md5 bs) (sha256 bs) (bf_size self) i)"
    from sz have n: "?n < length (bit_array self)"
      "int ?n = probe (md5 bs) (sha256 bs) (bf_size self) i"
      by (rule probe_index)+
    from i b(1) have "\<exists>k. 0 \<le> k \<and> k < num_hashes self
        \<and> probe (md5 bs) (sha256 bs) (bf_size self) k = int ?n"
      using n(2) by auto
    with b(3) n(1) have "bits ! ?n = 1" by simp
    with b(1) show ?thesis by simp
  qed
  then show ?thesis by (simp add: bf_check_Some [OF wf])
qed

lemma bf_check_monotone:
  assumes "bf_wf s1" and "bf_wf s2"
    and "bf_size s2 = bf_size s1" and "num_hashes s2 = num_hashes s1"
    and "\<forall>n < length (bit_array s1). bit_array s1 ! n = 1 \<longrightarrow> bit_array s2 ! n = 1"
    and "BloomFilter_check md5 sha256 s1 (Some bs) = Inr True"
  shows "BloomFilter_check md5 sha256 s2 (Some bs) = Inr True"
proof -
  from assms(1) have sz: "0 < bf_size s1" "int (length (bit_array s1)) = bf_size s1"
    by (simp_all add: bf_wf_def)
  from assms(6) have c1: "\<forall>i. 0 \<le> i \<and> i < num_hashes s1 \<longrightarrow>
      bit_array s1 ! nat (probe (md5 bs) (sha256 bs) (bf_size s1) i) = 1"
    by (simp add: bf_check_Some [OF assms(1)])
  have "bit_array s2 ! nat (probe (md5 bs) (sha256 bs) (bf_size s1) i) = 1"
    if i: "0 \<le> i \<and> i < num_hashes s1" for i
  proof -
    from sz have "nat (probe (md5 bs) (sha256 bs) (bf_size s1) i) < length (bit_array s1)"
      by (rule probe_index)
    with assms(5) c1 i show ?thesis by blast
  qed
  then show ?thesis by (simp add: bf_check_Some [OF assms(2)] assms(3,4))
qed

text \<open>
  C1 (no false negatives, monotone): on a well-formed Bloom filter, adding a non-null
  item \<open>x\<close> succeeds and \<^verbatim>\<open>check(x)\<close> is true right after; it is still true after any further
  run \<open>later\<close> of \<^verbatim>\<open>add\<close> calls with any items (null ones included), each of which succeeds;
  the bit array keeps its length. Bits that are 1 stay 1 (\<open>bf_add_all_steps\<close>).
\<close>

theorem no_false_negatives:
  assumes "bf_wf self"
  shows "\<exists>s1 s2.
           BloomFilter_add md5 sha256 self (Some x) = Inr s1
         \<and> BloomFilter_check md5 sha256 s1 (Some x) = Inr True
         \<and> BloomFilter_add_all md5 sha256 s1 later = Inr s2
         \<and> BloomFilter_check md5 sha256 s2 (Some x) = Inr True
         \<and> length (bit_array s2) = length (bit_array self)"
proof -
  from bf_add_step [OF assms, of md5 sha256 "Some x"] obtain s1 where
    s1: "BloomFilter_add md5 sha256 self (Some x) = Inr s1" "bf_wf s1"
        "bf_size s1 = bf_size self"
    by blast
  from bf_check_after_add [OF assms s1(1)]
  have c1: "BloomFilter_check md5 sha256 s1 (Some x) = Inr True" .
  from bf_add_all_steps [OF s1(2), of md5 sha256 later] obtain s2 where
    s2: "BloomFilter_add_all md5 sha256 s1 later = Inr s2" "bf_wf s2"
        "bf_size s2 = bf_size s1" "num_hashes s2 = num_hashes s1"
        "\<forall>n < length (bit_array s1). bit_array s1 ! n = 1 \<longrightarrow> bit_array s2 ! n = 1"
    by blast
  from bf_check_monotone [OF s1(2) s2(2) s2(3) s2(4) s2(5) c1]
  have c2: "BloomFilter_check md5 sha256 s2 (Some x) = Inr True" .
  from assms s1(3) s2(2,3) have "length (bit_array s2) = length (bit_array self)"
    using bf_wf_length [of self] bf_wf_length [of s2] by simp
  with s1(1) c1 s2(1) c2 show ?thesis by blast
qed

text \<open>
  C5 (double hashing): on a well-formed Bloom filter and for a non-null item with UTF-8
  bytes \<open>bs\<close>, \<^verbatim>\<open>_get_hashes\<close> returns the positions \<open>(h1 + i * h2) mod size\<close> for
  \<open>i = 0 .. num_hashes - 1\<close>, with \<open>h1 = md5 bs\<close> and \<open>h2 = sha256 bs\<close>; \<^verbatim>\<open>add\<close> sets exactly
  the bits at those positions to 1 and leaves every other bit as it was; \<^verbatim>\<open>check\<close> returns
  true if and only if the bit at every one of those positions is 1.
\<close>

theorem double_hashing_probes:
  assumes "bf_wf self"
  shows "BloomFilter_get_hashes md5 sha256 self (Some bs) =
           Inr (map (\<lambda>i. (int (md5 bs) + i * int (sha256 bs)) mod bf_size self)
                  [0 .. num_hashes self - 1])
       \<and> (\<exists>bits. BloomFilter_add md5 sha256 self (Some bs) = Inr (self\<lparr>bit_array := bits\<rparr>)
             \<and> length bits = length (bit_array self)
             \<and> (\<forall>n < length (bit_array self).
                   bits ! n =
                     (if \<exists>i. 0 \<le> i \<and> i < num_hashes self
                            \<and> probe (md5 bs) (sha256 bs) (bf_size self) i = int n
                      then 1 else bit_array self ! n)))
       \<and> BloomFilter_check md5 sha256 self (Some bs) =
           Inr (\<forall>i. 0 \<le> i \<and> i < num_hashes self \<longrightarrow>
                  bit_array self ! nat (probe (md5 bs) (sha256 bs) (bf_size self) i) = 1)"
proof -
  from assms have "bf_size self \<noteq> 0" by (simp add: bf_wf_def)
  then have "BloomFilter_get_hashes md5 sha256 self (Some bs) =
           Inr (map (\<lambda>i. (int (md5 bs) + i * int (sha256 bs)) mod bf_size self)
                  [0 .. num_hashes self - 1])"
    by (simp add: BloomFilter_get_hashes_def hashes_loop_eq)
  with bf_add_Some [OF assms, of md5 sha256 bs] bf_check_Some [OF assms, of md5 sha256 bs]
  show ?thesis by blast
qed

lemma bf_wf_fresh: "0 < sz \<Longrightarrow> 0 < k \<Longrightarrow>
  bf_wf \<lparr>bf_size = sz, num_hashes = k, bit_array = replicate (nat sz) 0\<rparr>"
  by (simp add: bf_wf_def list_all_iff)


theorem double_hashing_probes_witness:
  "bf_wf \<lparr>bf_size = 100, num_hashes = 3, bit_array = replicate 100 0\<rparr>
   \<and> BloomFilter_get_hashes md5_of_literal sha256_of_literal
        \<lparr>bf_size = 100, num_hashes = 3, bit_array = replicate 100 0\<rparr> (Some '''')
      = Inr [66, 15, 64]"
proof -
  have wf: "bf_wf \<lparr>bf_size = 100, num_hashes = 3, bit_array = replicate 100 0\<rparr>"
    using bf_wf_fresh [of 100 3] by simp
  from double_hashing_probes [OF wf, of md5_of_literal sha256_of_literal "''''"]
  have "BloomFilter_get_hashes md5_of_literal sha256_of_literal
        \<lparr>bf_size = 100, num_hashes = 3, bit_array = replicate 100 0\<rparr> (Some '''')
      = Inr [66, 15, 64]"
    by (simp add: upto_rec1 md5_of_literal_def sha256_of_literal_def)
  with wf show ?thesis by simp
qed

theorem no_false_negatives_witness:
  "bf_wf \<lparr>bf_size = 100, num_hashes = 3, bit_array = replicate 100 0\<rparr>
   \<and> (\<exists>s1 s2.
         BloomFilter_add md5_of_literal sha256_of_literal
           \<lparr>bf_size = 100, num_hashes = 3, bit_array = replicate 100 0\<rparr> (Some '''') = Inr s1
       \<and> BloomFilter_check md5_of_literal sha256_of_literal s1 (Some '''') = Inr True
       \<and> BloomFilter_add_all md5_of_literal sha256_of_literal s1
           [Some ''password123'', None] = Inr s2
       \<and> BloomFilter_check md5_of_literal sha256_of_literal s2 (Some '''') = Inr True
       \<and> length (bit_array s2) = length (replicate 100 (0::int)))"
proof -
  have wf: "bf_wf \<lparr>bf_size = 100, num_hashes = 3, bit_array = replicate 100 0\<rparr>"
    using bf_wf_fresh [of 100 3] by simp
  from no_false_negatives [OF wf, of md5_of_literal sha256_of_literal "''''"
      "[Some ''password123'', None]"] wf
  show ?thesis by simp
qed

section \<open>HyperLogLog: the rank loop\<close>

lemma rho_loop_positive:
  "0 < w \<Longrightarrow> \<exists>k. rho_loop rho w = Some (rho + int k) \<and> bit w k \<and> (\<forall>i < k. \<not> bit w i)"
proof (induction "nat w" arbitrary: w rho rule: less_induct)
  case less
  show ?case
  proof (cases "even w")
    case False
    then have "w AND 1 \<noteq> 0" by (simp add: and_one_eq odd_iff_mod_2_eq_one)
    then have "rho_loop rho w = Some (rho + int 0)"
      by (subst rho_loop.simps) simp
    moreover from False have "bit w 0" by (simp add: bit_0)
    ultimately show ?thesis by blast
  next
    case True
    then have z: "w AND 1 = 0" by (simp add: and_one_eq even_iff_mod_2_eq_zero)
    from True less.prems have pos: "0 < w div 2" by presburger
    from less.prems have "w div 2 < w" by linarith
    with pos have half: "0 < w div 2" "nat (w div 2) < nat w" by simp_all
    from less.hyps [OF half(2) half(1), of "rho + 1"] obtain k where
      k: "rho_loop (rho + 1) (w div 2) = Some (rho + 1 + int k)" "bit (w div 2) k"
         "\<forall>i < k. \<not> bit (w div 2) i"
      by blast
    from z k(1) have "rho_loop rho w = Some (rho + int (Suc k))"
      by (subst rho_loop.simps) (simp add: drop_bit_eq_div)
    moreover from k(2) have "bit w (Suc k)" by (simp add: bit_Suc)
    moreover have "\<forall>i < Suc k. \<not> bit w i"
    proof (intro allI impI)
      fix i assume "i < Suc k"
      then show "\<not> bit w i"
        using True k(3) by (cases i) (simp_all add: bit_0 bit_Suc)
    qed
    ultimately show ?thesis by blast
  qed
qed

lemma bit_below:
  assumes "0 \<le> (w::int)" and "w < 2 ^ n" and "bit w k"
  shows "k < n"
proof (rule ccontr)
  assume "\<not> k < n"
  then have "(2::int) ^ n \<le> 2 ^ k" by simp
  with assms(2) have "w < 2 ^ k" by linarith
  with assms(1) have "w div 2 ^ k = 0" by (simp add: div_pos_pos_trivial)
  with assms(3) show False by (simp add: bit_iff_odd)
qed

lemma rho_nonneg:
  assumes "0 \<le> w"
  shows "\<exists>v. HyperLogLog_rho self w = Some v
           \<and> (if w = 0 then v = 32 - hll_p self + 1 else lsb_position w v)"
proof (cases "w = 0")
  case True
  then show ?thesis by (simp add: HyperLogLog_rho_def)
next
  case False
  with assms have "0 < w" by simp
  from rho_loop_positive [OF this, of 1] obtain k where
    k: "rho_loop 1 w = Some (1 + int k)" "bit w k" "\<forall>i < k. \<not> bit w i"
    by blast
  then have "lsb_position w (1 + int k)" by (simp add: lsb_position_def)
  with False k(1) show ?thesis by (simp add: HyperLogLog_rho_def)
qed

lemma lsb_position_bound:
  assumes "0 \<le> w" and "w < 2 ^ n" and "lsb_position w v"
  shows "1 \<le> v \<and> v \<le> int n"
proof -
  from assms(3) have v: "1 \<le> v" "bit w (nat (v - 1))" by (simp_all add: lsb_position_def)
  from bit_below [OF assms(1,2) v(2)] v(1) show ?thesis by linarith
qed

section \<open>HyperLogLog: one call of add\<close>

lemma bucket_index:
  assumes "hll_wf self"
  shows "x AND (hll_m self - 1) = take_bit (nat (hll_p self)) x"
    and "0 \<le> take_bit (nat (hll_p self)) x"
    and "take_bit (nat (hll_p self)) x < int (length (registers self))"
proof -
  from assms have m: "hll_m self = 2 ^ nat (hll_p self)"
    and len: "int (length (registers self)) = hll_m self"
    by (simp_all add: hll_wf_def)
  show "x AND (hll_m self - 1) = take_bit (nat (hll_p self)) x"
    by (simp add: m take_bit_eq_mask mask_eq_exp_minus_1)
  show "0 \<le> take_bit (nat (hll_p self)) x" by simp
  show "take_bit (nat (hll_p self)) x < int (length (registers self))"
    by (simp add: len m)
qed

lemma hll_add_eq:
  assumes "hll_wf self"
  shows "\<exists>v. HyperLogLog_rho self (drop_bit (nat (hll_p self)) (uint (hash32 (py_str it)))) = Some v
         \<and> HyperLogLog_add hash32 self it =
             Some (Inr (self\<lparr>registers :=
               (registers self)[nat (take_bit (nat (hll_p self)) (uint (hash32 (py_str it)))) :=
                  max (registers self ! nat (take_bit (nat (hll_p self)) (uint (hash32 (py_str it))))) v]\<rparr>))"
proof -
  let ?x = "uint (hash32 (py_str it))"
  let ?j = "take_bit (nat (hll_p self)) ?x"
  let ?w = "drop_bit (nat (hll_p self)) ?x"
  from assms have p: "\<not> hll_p self < 0" by (simp add: hll_wf_def)
  have "0 \<le> ?w" by simp
  from rho_nonneg [OF this, of self] obtain v where v: "HyperLogLog_rho self ?w = Some v"
    by blast
  note j = bucket_index [OF assms, of ?x]
  have "HyperLogLog_add hash32 self it =
          Some (Inr (self\<lparr>registers := (registers self)[nat ?j := max (registers self ! nat ?j) v]\<rparr>))"
    unfolding HyperLogLog_add_def Let_def j(1)
    by (simp add: p v getitem_in_range [OF j(2,3)] setitem_in_range [OF j(2,3)])
  with v show ?thesis by blast
qed

lemma py_index_Some: "py_index xs i = Some k \<Longrightarrow> k < length xs"
  by (auto simp: py_index_def split: if_splits)

lemma hll_add_cases:
  assumes "HyperLogLog_add hash32 self it = Some (Inr s1)"
  obtains k v where
    "py_index (registers self) (uint (hash32 (py_str it)) AND (hll_m self - 1)) = Some k"
    "\<not> hll_p self < 0"
    "HyperLogLog_rho self (drop_bit (nat (hll_p self)) (uint (hash32 (py_str it)))) = Some v"
    "s1 = self\<lparr>registers := (registers self)[k := max (registers self ! k) v]\<rparr>"
  using assms
  by (auto simp: HyperLogLog_add_def Let_def getitem_def setitem_def
      split: if_splits option.splits sum.splits)

lemma hll_add_again:
  assumes "HyperLogLog_add hash32 self it = Some (Inr s1)"
  shows "HyperLogLog_add hash32 s1 it = Some (Inr s1)"
proof -
  let ?j = "uint (hash32 (py_str it)) AND (hll_m self - 1)"
  let ?w = "drop_bit (nat (hll_p self)) (uint (hash32 (py_str it)))"
  from assms obtain k v where
    k: "py_index (registers self) ?j = Some k" and p: "\<not> hll_p self < 0"
    and v: "HyperLogLog_rho self ?w = Some v"
    and s1: "s1 = self\<lparr>registers := (registers self)[k := max (registers self ! k) v]\<rparr>"
    by (rule hll_add_cases)
  let ?regs = "(registers self)[k := max (registers self ! k) v]"
  from k have len: "k < length (registers self)" by (rule py_index_Some)
  have "py_index ?regs ?j = py_index (registers self) ?j" by (simp add: py_index_def)
  with k have k': "py_index ?regs ?j = Some k" by simp
  have "HyperLogLog_rho s1 ?w = HyperLogLog_rho self ?w"
    by (simp add: HyperLogLog_rho_def s1)
  with v have v': "HyperLogLog_rho s1 ?w = Some v" by simp
  have "?regs[k := max (?regs ! k) v] = ?regs" using len by simp
  then show ?thesis
    unfolding HyperLogLog_add_def Let_def
    using p k' v' len by (simp add: s1 getitem_def setitem_def)
qed

lemma hll_add_all_again:
  assumes "HyperLogLog_add hash32 s1 it = Some (Inr s1)"
  shows "HyperLogLog_add_all hash32 s1 (replicate n it) = Some (Inr s1)"
  using assms by (induction n) simp_all

text \<open>
  C8 (idempotence): \<^verbatim>\<open>add(x)\<close> succeeds on every well-formed estimator; and whenever
  \<^verbatim>\<open>add(x)\<close> returns the state \<open>s1\<close>, adding \<open>x\<close> any number \<open>n\<close> of further times returns
  \<open>s1\<close> again: the registers, and with them the value of \<^verbatim>\<open>count()\<close>, are those after the
  first add.
\<close>

theorem estimator_idempotence:
  "(hll_wf self \<longrightarrow> (\<exists>s1. HyperLogLog_add hash32 self x = Some (Inr s1)))
   \<and> (\<forall>s1. HyperLogLog_add hash32 self x = Some (Inr s1) \<longrightarrow>
          HyperLogLog_add_all hash32 s1 (replicate n x) = Some (Inr s1)
        \<and> HyperLogLog_add_all hash32 self (replicate (Suc n) x) = Some (Inr s1)
        \<and> (\<forall>s2. HyperLogLog_add_all hash32 self (replicate (Suc n) x) = Some (Inr s2) \<longrightarrow>
               registers s2 = registers s1 \<and> HyperLogLog_count s2 = HyperLogLog_count s1))"
proof (intro conjI impI allI)
  assume "hll_wf self"
  from hll_add_eq [OF this, of hash32 x]
  show "\<exists>s1. HyperLogLog_add hash32 self x = Some (Inr s1)" by blast
next
  fix s1 assume a: "HyperLogLog_add hash32 self x = Some (Inr s1)"
  from hll_add_all_again [OF hll_add_again [OF a]]
  show r: "HyperLogLog_add_all hash32 s1 (replicate n x) = Some (Inr s1)" .
  with a show t: "HyperLogLog_add_all hash32 self (replicate (Suc n) x) = Some (Inr s1)"
    by simp
  fix s2 assume "HyperLogLog_add_all hash32 self (replicate (Suc n) x) = Some (Inr s2)"
  with t have "s2 = s1" by simp
  then show "registers s2 = registers s1" "HyperLogLog_count s2 = HyperLogLog_count s1"
    by simp_all
qed

text \<open>
  C6 (add): on a well-formed estimator, with \<open>x\<close> the 32-bit hash of the item's text,
  \<open>j\<close> the low \<open>p\<close> bits of \<open>x\<close> and \<open>w\<close> the remaining higher bits (so \<open>x = j + 2^p * w\<close>
  and \<open>0 \<le> j < m\<close>), \<^verbatim>\<open>add\<close> returns the state whose register \<open>j\<close> is the maximum of its
  old value and the rank \<open>v\<close>, all other registers unchanged; \<open>v\<close> is \<open>32 - p + 1\<close> when
  \<open>w = 0\<close> and otherwise the 1-based position of the least-significant set bit of \<open>w\<close>.
\<close>

theorem estimator_add_semantics:
  assumes "hll_wf self"
  shows "let x = uint (hash32 (py_str it));
             j = take_bit (nat (hll_p self)) x;
             w = drop_bit (nat (hll_p self)) x
         in 0 \<le> j \<and> j < hll_m self \<and> x = j + 2 ^ nat (hll_p self) * w
          \<and> (\<exists>v. (if w = 0 then v = 32 - hll_p self + 1 else lsb_position w v)
               \<and> HyperLogLog_add hash32 self it =
                   Some (Inr (self\<lparr>registers :=
                     (registers self)[nat j := max (registers self ! nat j) v]\<rparr>)))"
proof -
  let ?x = "uint (hash32 (py_str it))"
  let ?j = "take_bit (nat (hll_p self)) ?x"
  let ?w = "drop_bit (nat (hll_p self)) ?x"
  from assms have len: "int (length (registers self)) = hll_m self" by (simp add: hll_wf_def)
  note j = bucket_index [OF assms, of ?x]
  from hll_add_eq [OF assms, of hash32 it] obtain v where
    v: "HyperLogLog_rho self ?w = Some v"
    and add: "HyperLogLog_add hash32 self it =
       Some (Inr (self\<lparr>registers := (registers self)[nat ?j := max (registers self ! nat ?j) v]\<rparr>))"
    by blast
  have "0 \<le> ?w" by simp
  from rho_nonneg [OF this, of self] v
  have rank: "if ?w = 0 then v = 32 - hll_p self + 1 else lsb_position ?w v" by simp
  have split: "?x = ?j + 2 ^ nat (hll_p self) * ?w"
    by (simp add: take_bit_eq_mod drop_bit_eq_div)
  from j(3) len have lt: "?j < hll_m self" by simp
  show ?thesis
    unfolding Let_def
  proof (intro conjI exI [of _ v])
    show "0 \<le> ?j" by (rule j(2))
    show "?j < hll_m self" by (rule lt)
    show "?x = ?j + 2 ^ nat (hll_p self) * ?w" by (rule split)
    show "if ?w = 0 then v = 32 - hll_p self + 1 else lsb_position ?w v" by (rule rank)
    show "HyperLogLog_add hash32 self it =
       Some (Inr (self\<lparr>registers := (registers self)[nat ?j := max (registers self ! nat ?j) v]\<rparr>))"
      by (rule add)
  qed
qed

section \<open>HyperLogLog: the constructor and the register range\<close>

lemma get_alpha_pow2:
  "\<exists>a. HyperLogLog_get_alpha (2 ^ n) = Inr a \<and> 0 < a \<and> a \<le> 5 / 2"
proof -
  let ?d = "1 + 1.079 / real_of_int (2 ^ n)"
  let ?a = "if (2::int) ^ n = 16 then 0.673 else if (2::int) ^ n = 32 then 0.697
            else if (2::int) ^ n = 64 then 0.709 else 0.7213 / ?d"
  have d: "1 \<le> ?d" by simp
  have "0.7213 / ?d \<le> 0.7213 / 1"
    by (rule frac_le) (use d in simp_all)
  also have "0.7213 / 1 \<le> (5 / 2 :: real)" by simp
  finally have up: "0.7213 / ?d \<le> 5 / 2" .
  from d have "0 < ?d" by linarith
  then have low: "0 < 0.7213 / ?d" by (intro divide_pos_pos) simp_all
  have "HyperLogLog_get_alpha (2 ^ n) = Inr ?a"
    by (simp add: HyperLogLog_get_alpha_def)
  moreover from low have "0 < ?a" by (simp del: of_int_power)
  moreover from up have "?a \<le> 5 / 2" by (simp del: of_int_power)
  ultimately show ?thesis by blast
qed

lemma hll_init_cases:
  assumes "HyperLogLog_init p_arg = Inr s"
  obtains pp a where "as_int p_arg = Some pp" "0 \<le> pp"
    "HyperLogLog_get_alpha (2 ^ nat pp) = Inr a" "0 < a" "a \<le> 5 / 2"
    "s = \<lparr>hll_p = pp, hll_m = 2 ^ nat pp, registers = replicate (2 ^ nat pp) 0, alpha = a\<rparr>"
proof -
  from assms obtain pp where pp: "as_int p_arg = Some pp" "0 \<le> pp"
    by (auto simp: HyperLogLog_init_def split: option.splits if_splits)
  from get_alpha_pow2 [of "nat pp"] obtain a where
    a: "HyperLogLog_get_alpha (2 ^ nat pp) = Inr a" "0 < a" "a \<le> 5 / 2" by blast
  have "nat (2 ^ nat pp :: int) = 2 ^ nat pp" by (simp add: nat_power_eq)
  with assms pp a have
    "s = \<lparr>hll_p = pp, hll_m = 2 ^ nat pp, registers = replicate (2 ^ nat pp) 0, alpha = a\<rparr>"
    by (simp add: HyperLogLog_init_def push_bit_eq_mult Let_def)
  with pp a show ?thesis by (rule that)
qed

lemma hll_init_ok:
  assumes "as_int p_arg = Some pp" and "0 \<le> pp"
  shows "\<exists>a. HyperLogLog_init p_arg =
           Inr \<lparr>hll_p = pp, hll_m = 2 ^ nat pp, registers = replicate (2 ^ nat pp) 0, alpha = a\<rparr>"
proof -
  from get_alpha_pow2 [of "nat pp"] obtain a where
    a: "HyperLogLog_get_alpha (2 ^ nat pp) = Inr a" by blast
  have "nat (2 ^ nat pp :: int) = 2 ^ nat pp" by (simp add: nat_power_eq)
  with assms a show ?thesis
    by (simp add: HyperLogLog_init_def push_bit_eq_mult Let_def)
qed

lemma hll_wf_fresh:
  "0 \<le> pp \<Longrightarrow>
   hll_wf \<lparr>hll_p = pp, hll_m = 2 ^ nat pp, registers = replicate (2 ^ nat pp) 0, alpha = a\<rparr>"
  by (simp add: hll_wf_def)

lemma residual_bound:
  assumes "0 \<le> pp" and "pp \<le> 32"
  shows "drop_bit (nat pp) (uint (y :: 32 word)) < 2 ^ nat (32 - pp)"
proof -
  have "uint y < 2 ^ 32" using uint_bounded [of y] by simp
  then have "take_bit 32 (uint y) = uint y" by (simp add: take_bit_int_eq_self)
  then have "drop_bit (nat pp) (uint y) = take_bit (32 - nat pp) (drop_bit (nat pp) (uint y))"
    by (metis drop_bit_take_bit)
  also have "\<dots> < 2 ^ (32 - nat pp)" by (rule take_bit_int_less_exp)
  also from assms have "32 - nat pp = nat (32 - pp)" by simp
  finally show ?thesis .
qed

lemma rho_bound:
  assumes "0 \<le> hll_p self" and "hll_p self \<le> 32"
    and "HyperLogLog_rho self (drop_bit (nat (hll_p self)) (uint (y :: 32 word))) = Some v"
  shows "1 \<le> v \<and> v \<le> 32 - hll_p self + 1"
proof -
  let ?w = "drop_bit (nat (hll_p self)) (uint y)"
  have w0: "0 \<le> ?w" by simp
  from rho_nonneg [OF w0, of self] assms(3)
  have rank: "if ?w = 0 then v = 32 - hll_p self + 1 else lsb_position ?w v" by simp
  show ?thesis
  proof (cases "?w = 0")
    case True
    with rank assms(2) show ?thesis by simp
  next
    case False
    with rank have "lsb_position ?w v" by simp
    from lsb_position_bound [OF w0 residual_bound [OF assms(1,2)] this] assms(1,2)
    show ?thesis by simp
  qed
qed

lemma hll_add_step:
  assumes "hll_wf self" and "hll_p self \<le> 32" and "regs_bounded self"
  shows "\<exists>s1. HyperLogLog_add hash32 self it = Some (Inr s1) \<and> hll_wf s1
           \<and> hll_p s1 = hll_p self \<and> regs_bounded s1"
proof -
  let ?x = "uint (hash32 (py_str it))"
  let ?j = "nat (take_bit (nat (hll_p self)) ?x)"
  from assms(1) have p0: "0 \<le> hll_p self" by (simp add: hll_wf_def)
  from hll_add_eq [OF assms(1), of hash32 it] obtain v where
    v: "HyperLogLog_rho self (drop_bit (nat (hll_p self)) ?x) = Some v"
    and add: "HyperLogLog_add hash32 self it =
       Some (Inr (self\<lparr>registers := (registers self)[?j := max (registers self ! ?j) v]\<rparr>))"
    by blast
  let ?s1 = "self\<lparr>registers := (registers self)[?j := max (registers self ! ?j) v]\<rparr>"
  from rho_bound [OF p0 assms(2) v] have vb: "1 \<le> v" "v \<le> 32 - hll_p self + 1" by simp_all
  from bucket_index(2,3) [OF assms(1), of ?x] have j: "?j < length (registers self)"
    by (simp add: nat_less_iff)
  from assms(3) have old: "\<forall>r \<in> set (registers self). 0 \<le> r \<and> r \<le> 32 - hll_p self + 1"
    by (simp add: regs_bounded_def list_all_iff)
  with j have rj: "0 \<le> registers self ! ?j" "registers self ! ?j \<le> 32 - hll_p self + 1"
    by simp_all
  have "\<forall>r \<in> set ((registers self)[?j := max (registers self ! ?j) v]).
          0 \<le> r \<and> r \<le> 32 - hll_p self + 1"
  proof
    fix r assume "r \<in> set ((registers self)[?j := max (registers self ! ?j) v])"
    then have "r = max (registers self ! ?j) v \<or> r \<in> set (registers self)"
      using set_update_subset_insert [of "registers self" ?j] by auto
    moreover from rj vb have "0 \<le> max (registers self ! ?j) v"
      "max (registers self ! ?j) v \<le> 32 - hll_p self + 1"
      by linarith+
    ultimately show "0 \<le> r \<and> r \<le> 32 - hll_p self + 1" using old by blast
  qed
  then have b: "regs_bounded ?s1" by (simp add: regs_bounded_def list_all_iff)
  from assms(1) have "hll_wf ?s1" by (simp add: hll_wf_def)
  with add b show ?thesis by simp
qed

lemma hll_add_all_steps:
  assumes "hll_wf self" and "hll_p self \<le> 32" and "regs_bounded self"
  shows "\<exists>s1. HyperLogLog_add_all hash32 self its = Some (Inr s1) \<and> hll_wf s1
           \<and> hll_p s1 = hll_p self \<and> regs_bounded s1"
  using assms
proof (induction its arbitrary: self)
  case Nil
  then show ?case by simp
next
  case (Cons it rest)
  from hll_add_step [OF Cons.prems, of hash32 it] obtain s1 where
    s1: "HyperLogLog_add hash32 self it = Some (Inr s1)" "hll_wf s1"
        "hll_p s1 = hll_p self" "regs_bounded s1"
    by blast
  from Cons.prems(2) s1(3) have "hll_p s1 \<le> 32" by simp
  from Cons.IH [OF s1(2) this s1(4)] obtain s2 where
    "HyperLogLog_add_all hash32 s1 rest = Some (Inr s2)" "hll_wf s2"
    "hll_p s2 = hll_p s1" "regs_bounded s2"
    by blast
  with s1 show ?case by simp
qed

text \<open>
  C10 (bounded registers): for an estimator constructed with precision \<open>0 < p \<le> 32\<close>,
  any finite run of \<^verbatim>\<open>add\<close> calls succeeds and leaves every register in the range from 0 to
  \<open>32 - p + 1\<close>.
\<close>

theorem registers_bounded:
  assumes "HyperLogLog_init (PyInt pp) = Inr s0" and "0 < pp" and "pp \<le> 32"
  shows "\<exists>s. HyperLogLog_add_all hash32 s0 its = Some (Inr s)
           \<and> list_all (\<lambda>r. 0 \<le> r \<and> r \<le> 32 - pp + 1) (registers s)"
proof -
  from assms(1) obtain a where
    s0: "s0 = \<lparr>hll_p = pp, hll_m = 2 ^ nat pp, registers = replicate (2 ^ nat pp) 0, alpha = a\<rparr>"
    by (rule hll_init_cases) simp
  from assms(2) have wf: "hll_wf s0" unfolding s0 by (intro hll_wf_fresh) simp
  from assms(3) have p: "hll_p s0 \<le> 32" by (simp add: s0)
  from assms(3) have b: "regs_bounded s0" by (simp add: s0 regs_bounded_def list_all_iff)
  from hll_add_all_steps [OF wf p b, of hash32 its] obtain s where
    "HyperLogLog_add_all hash32 s0 its = Some (Inr s)" "hll_p s = hll_p s0" "regs_bounded s"
    by blast
  then show ?thesis by (auto simp: regs_bounded_def s0)
qed

section \<open>HyperLogLog: the estimate\<close>

lemma harmonic_sum_Cons: "harmonic_sum (r # regs) = 2 powi (- r) + harmonic_sum regs"
  by (simp add: harmonic_sum_def)

lemma harmonic_sum_nonneg: "0 \<le> harmonic_sum regs"
  by (induction regs) (simp_all add: harmonic_sum_def)

lemma harmonic_sum_pos: "regs \<noteq> [] \<Longrightarrow> 0 < harmonic_sum regs"
proof (cases regs)
  case Nil
  then show "regs \<noteq> [] \<Longrightarrow> ?thesis" by simp
next
  case (Cons r rest)
  have "(0::real) < 2 powi (- r)" by simp
  with harmonic_sum_nonneg [of rest] Cons show ?thesis
    by (simp add: harmonic_sum_Cons add_pos_nonneg)
qed

lemma harmonic_sum_lower:
  "list_all (\<lambda>r. r \<le> R) regs \<Longrightarrow> real (length regs) * 2 powi (- R) \<le> harmonic_sum regs"
proof (induction regs)
  case Nil
  then show ?case by (simp add: harmonic_sum_def)
next
  case (Cons r rest)
  then have "r \<le> R" and rest: "real (length rest) * 2 powi (- R) \<le> harmonic_sum rest"
    by simp_all
  then have "(2::real) powi (- R) \<le> 2 powi (- r)"
    by (intro power_int_increasing) simp_all
  with rest show ?case
    by (simp add: harmonic_sum_Cons algebra_simps)
qed

lemma harmonic_sum_replicate_0: "harmonic_sum (replicate n 0) = real n"
  by (induction n) (simp_all add: harmonic_sum_def)

lemma count_list_replicate_0: "count_list (replicate n x) x = n"
  by (induction n) simp_all

lemma small_range_no_zero_division: "small_range mm E V \<noteq> Inl ZeroDivisionError"
  by (simp add: small_range_def math_log_def Let_def)

lemma large_range_no_zero_division: "large_range E \<noteq> Inl ZeroDivisionError"
  by (simp add: large_range_def math_log_def Let_def)

lemma count_no_zero_division:
  assumes "harmonic_sum (registers self) \<noteq> 0"
  shows "HyperLogLog_count self \<noteq> Inl ZeroDivisionError"
  using assms small_range_no_zero_division large_range_no_zero_division
  by (auto simp: HyperLogLog_count_def Let_def split: sum.splits)

text \<open>
  C9 (no division by zero): whenever there is at least one register, the harmonic sum
  \<open>Z\<close>, the sum of \<open>2^(-r)\<close> over the registers, is strictly positive, so \<^verbatim>\<open>count()\<close> never
  raises \<^verbatim>\<open>ZeroDivisionError\<close>; and when no register exceeds \<open>R\<close>, \<open>Z\<close> is at least
  \<open>m * 2^(-R)\<close>. Floats are read as reals here.
\<close>

theorem harmonic_sum_positive:
  "(registers self \<noteq> [] \<longrightarrow>
      0 < harmonic_sum (registers self) \<and> HyperLogLog_count self \<noteq> Inl ZeroDivisionError)
   \<and> (list_all (\<lambda>r. r \<le> R) (registers self) \<longrightarrow>
      real (length (registers self)) * 2 powi (- R) \<le> harmonic_sum (registers self))"
proof (intro conjI impI)
  assume ne: "registers self \<noteq> []"
  then show pos: "0 < harmonic_sum (registers self)" by (rule harmonic_sum_pos)
  then have "harmonic_sum (registers self) \<noteq> 0" by simp
  then show "HyperLogLog_count self \<noteq> Inl ZeroDivisionError" by (rule count_no_zero_division)
next
  assume "list_all (\<lambda>r. r \<le> R) (registers self)"
  then show "real (length (registers self)) * 2 powi (- R) \<le> harmonic_sum (registers self)"
    by (rule harmonic_sum_lower)
qed

text \<open>
  C7 (zero state): on every estimator the constructor returns, \<^verbatim>\<open>count()\<close> returns exactly
  0: all \<open>m\<close> registers are 0, so \<open>V = m\<close>, the raw estimate \<open>alpha * m\<close> is at most
  \<open>2.5 * m\<close>, the small-range step gives \<open>m * ln (m / m) = 0\<close> and the large-range step is
  not taken.
\<close>

theorem zero_state_estimate:
  assumes "HyperLogLog_init p_arg = Inr s"
  shows "HyperLogLog_count s = Inr 0"
proof -
  from assms obtain pp a where a: "0 < a" "a \<le> 5 / 2"
    and s: "s = \<lparr>hll_p = pp, hll_m = 2 ^ nat pp, registers = replicate (2 ^ nat pp) 0, alpha = a\<rparr>"
    by (rule hll_init_cases)
  let ?n = "(2::nat) ^ nat pp"
  let ?M = "(2::real) ^ nat pp"
  have M: "0 < ?M" by simp
  have Z: "harmonic_sum (registers s) = ?M" by (simp add: s harmonic_sum_replicate_0)
  have V: "count_list (registers s) 0 = ?n" by (simp add: s count_list_replicate_0)
  have m: "real_of_int (hll_m s) = ?M" by (simp add: s)
  have E: "alpha s * real_of_int (hll_m s) * real_of_int (hll_m s) / harmonic_sum (registers s)
           = a * ?M"
    unfolding Z m using M by (simp add: s)
  from a(2) M have le: "a * ?M \<le> 5 * ?M / 2" by (simp add: field_simps)
  have "math_log (?M / real ?n) = Inr 0" by (simp add: math_log_def)
  with le have small: "small_range (hll_m s) (a * ?M) ?n = Inr 0"
    unfolding small_range_def m by (simp add: Let_def)
  have large: "large_range 0 = Inr 0" by (simp add: large_range_def Let_def)
  from M Z have "harmonic_sum (registers s) \<noteq> 0" by simp
  then show ?thesis
    unfolding HyperLogLog_count_def Let_def E V
    by (simp add: small large)
qed


lemma count_list_filter: "count_list xs x = length (filter (\<lambda>y. y = x) xs)"
  by (induction xs) simp_all

lemma small_range_spec:
  assumes "0 < mm"
  shows "small_range mm E V =
           Inr (if V > 0 \<and> E \<le> 2.5 * real_of_int mm
                then real_of_int mm * ln (real_of_int mm / real V) else E)"
proof (cases "V > 0")
  case True
  with assms have "0 < real_of_int mm / real V" by simp
  then have "math_log (real_of_int mm / real V) = Inr (ln (real_of_int mm / real V))"
    by (simp add: math_log_def)
  moreover have "E \<le> 5 * real_of_int mm / 2 \<longleftrightarrow> E \<le> 2.5 * real_of_int mm" by simp
  ultimately show ?thesis using True by (simp add: small_range_def Let_def)
next
  case False
  then show ?thesis by (simp add: small_range_def)
qed

lemma large_range_spec:
  "large_range E =
     (if E < 2 ^ 32
      then Inr (if E > 2 ^ 32 / 30 then - (2 ^ 32) * ln (1 - E / 2 ^ 32) else E)
      else Inl ValueError)"
proof -
  have H: "(1 / 30) * 2 ^ 32 = (2 ^ 32 / 30 :: real)" by simp
  have arg: "0 < 1 - E / 2 ^ 32 \<longleftrightarrow> E < 2 ^ 32" by (simp add: field_simps)
  have big: "\<not> E < 2 ^ 32 \<Longrightarrow> E > 2 ^ 32 / 30" by simp
  show ?thesis
    unfolding large_range_def Let_def H math_log_def arg
    using big by auto
qed

text \<open>
  C2 (estimate formula), as the code has it: on a well-formed estimator, \<^verbatim>\<open>count()\<close>
  returns the specification's estimate (\<open>Z\<close> the sum of \<open>2^(-r)\<close>, \<open>E = alpha * m^2 / Z\<close>,
  replaced by \<open>m * ln (m / V)\<close> when \<open>V > 0\<close> and \<open>E \<le> 2.5 * m\<close>, then replaced by
  \<open>- 2^32 * ln (1 - E / 2^32)\<close> when \<open>E > 2^32 / 30\<close>) provided the estimate that enters the
  large-range step is below \<open>2^32\<close>; from \<open>2^32\<close> on, the argument of the logarithm is not
  positive and \<^verbatim>\<open>count()\<close> raises \<^verbatim>\<open>ValueError\<close>.
\<close>

theorem count_formula:
  assumes "hll_wf self"
  shows "HyperLogLog_count self =
           (if spec_small_range (alpha self) (hll_m self) (registers self) < 2 ^ 32
            then Inr (spec_estimate (alpha self) (hll_m self) (registers self))
            else Inl ValueError)"
proof -
  from assms have m: "0 < hll_m self" and len: "int (length (registers self)) = hll_m self"
    by (simp_all add: hll_wf_def)
  then have "registers self \<noteq> []" by auto
  then have Z: "harmonic_sum (registers self) \<noteq> 0"
    using harmonic_sum_pos [of "registers self"] by simp
  let ?E = "alpha self * real_of_int (hll_m self) * real_of_int (hll_m self)
              / harmonic_sum (registers self)"
  have E: "?E = alpha self * (real_of_int (hll_m self))\<^sup>2 / (\<Sum>r \<leftarrow> registers self. 2 powi (- r))"
    by (simp add: harmonic_sum_def power2_eq_square)
  have small: "small_range (hll_m self) ?E (count_list (registers self) 0) =
                 Inr (spec_small_range (alpha self) (hll_m self) (registers self))"
    unfolding small_range_spec [OF m] E
    by (simp add: spec_small_range_def Let_def count_list_filter)
  have "HyperLogLog_count self =
          large_range (spec_small_range (alpha self) (hll_m self) (registers self))"
    using Z by (simp add: HyperLogLog_count_def Let_def small)
  then show ?thesis
    by (simp add: large_range_spec spec_estimate_def Let_def)
qed

section \<open>Null items and construction\<close>

lemma mmh3_hash_None: "mmh3_hash ''None'' = 3069107721"
  by code_simp

lemma replicate_16: "replicate 16 (0::int) = [0, 0, 0, 0, 0, 0, 0, 0, 0, 0, 0, 0, 0, 0, 0, 0]"
  by (simp add: eval_nat_numeral)

lemma hll_init_4:
  "HyperLogLog_init (PyInt 4) =
     Inr \<lparr>hll_p = 4, hll_m = 16, registers = [0, 0, 0, 0, 0, 0, 0, 0, 0, 0, 0, 0, 0, 0, 0, 0], alpha = 0.673\<rparr>"
  by (simp add: HyperLogLog_init_def HyperLogLog_get_alpha_def Let_def replicate_16)

lemma hll_wf_4:
  "hll_wf \<lparr>hll_p = 4, hll_m = 16, registers = [0, 0, 0, 0, 0, 0, 0, 0, 0, 0, 0, 0, 0, 0, 0, 0], alpha = 0.673\<rparr>"
  by (simp add: hll_wf_def)

lemma hll_add_None_4:
  "HyperLogLog_add mmh3_hash
     \<lparr>hll_p = 4, hll_m = 16, registers = [0, 0, 0, 0, 0, 0, 0, 0, 0, 0, 0, 0, 0, 0, 0, 0], alpha = 0.673\<rparr> None
   = Some (Inr \<lparr>hll_p = 4, hll_m = 16,
                registers = [0, 0, 0, 0, 0, 0, 0, 0, 0, 6, 0, 0, 0, 0, 0, 0], alpha = 0.673\<rparr>)"
  by (simp add: HyperLogLog_add_def py_str_def mmh3_hash_None HyperLogLog_rho_def rho_loop.simps
      getitem_def setitem_def py_index_def)

text \<open>
  C3 (null items), as the code has it: on the Bloom filter, \<^verbatim>\<open>add(None)\<close> returns with the
  state unchanged and \<^verbatim>\<open>check(None)\<close> returns false, whatever the state; on the estimator,
  \<^verbatim>\<open>add(None)\<close> is \<^verbatim>\<open>add\<close> of the text \<^verbatim>\<open>None\<close> (it hashes \<^verbatim>\<open>str(None)\<close>), which on a
  well-formed estimator returns a state and raises nothing.
\<close>

theorem null_item_policy:
  "BloomFilter_add md5 sha256 bf None = Inr bf
   \<and> BloomFilter_check md5 sha256 bf None = Inr False
   \<and> HyperLogLog_add hash32 h None = HyperLogLog_add hash32 h (Some ''None'')
   \<and> (hll_wf h \<longrightarrow> (\<exists>h'. HyperLogLog_add hash32 h None = Some (Inr h')))"
proof (intro conjI impI)
  show "BloomFilter_add md5 sha256 bf None = Inr bf" by (rule bf_add_None)
  show "BloomFilter_check md5 sha256 bf None = Inr False" by (rule bf_check_None)
  show "HyperLogLog_add hash32 h None = HyperLogLog_add hash32 h (Some ''None'')"
    by (simp add: HyperLogLog_add_def py_str_def)
next
  assume "hll_wf h"
  from hll_add_eq [OF this, of hash32 None]
  show "\<exists>h'. HyperLogLog_add hash32 h None = Some (Inr h')" by blast
qed

theorem null_item_policy_witness:
  "BloomFilter_add md5_of_literal sha256_of_literal
     \<lparr>bf_size = 100, num_hashes = 3, bit_array = replicate 100 0\<rparr> None
     = Inr \<lparr>bf_size = 100, num_hashes = 3, bit_array = replicate 100 0\<rparr>
   \<and> BloomFilter_check md5_of_literal sha256_of_literal
     \<lparr>bf_size = 100, num_hashes = 3, bit_array = replicate 100 0\<rparr> None = Inr False
   \<and> hll_wf \<lparr>hll_p = 4, hll_m = 16, registers = [0, 0, 0, 0, 0, 0, 0, 0, 0, 0, 0, 0, 0, 0, 0, 0], alpha = 0.673\<rparr>
   \<and> (\<exists>h'. HyperLogLog_add mmh3_hash
          \<lparr>hll_p = 4, hll_m = 16, registers = [0, 0, 0, 0, 0, 0, 0, 0, 0, 0, 0, 0, 0, 0, 0, 0], alpha = 0.673\<rparr> None
        = Some (Inr h'))"
  using null_item_policy [of md5_of_literal sha256_of_literal
      "\<lparr>bf_size = 100, num_hashes = 3, bit_array = replicate 100 0\<rparr>" mmh3_hash
      "\<lparr>hll_p = 4, hll_m = 16, registers = [0, 0, 0, 0, 0, 0, 0, 0, 0, 0, 0, 0, 0, 0, 0, 0], alpha = 0.673\<rparr>"] hll_wf_4
  by blast

text \<open>
  C3 as stated fails on the estimator: on a fresh estimator with \<open>p = 4\<close>,
  \<^verbatim>\<open>add(None)\<close> hashes the text \<^verbatim>\<open>None\<close> to \<open>3069107721\<close>, bucket 9, rank 6, and raises
  register 9 from 0 to 6.
\<close>

theorem null_item_counterexample:
  "HyperLogLog_add mmh3_hash
     \<lparr>hll_p = 4, hll_m = 16, registers = [0, 0, 0, 0, 0, 0, 0, 0, 0, 0, 0, 0, 0, 0, 0, 0], alpha = 0.673\<rparr> None
   = Some (Inr \<lparr>hll_p = 4, hll_m = 16,
                registers = [0, 0, 0, 0, 0, 0, 0, 0, 0, 6, 0, 0, 0, 0, 0, 0], alpha = 0.673\<rparr>)
   \<and> HyperLogLog_add mmh3_hash
     \<lparr>hll_p = 4, hll_m = 16, registers = [0, 0, 0, 0, 0, 0, 0, 0, 0, 0, 0, 0, 0, 0, 0, 0], alpha = 0.673\<rparr> None
   \<noteq> Some (Inr \<lparr>hll_p = 4, hll_m = 16, registers = [0, 0, 0, 0, 0, 0, 0, 0, 0, 0, 0, 0, 0, 0, 0, 0], alpha = 0.673\<rparr>)"
  using hll_add_None_4 by simp

text \<open>
  C4 (construction), as the code has it: \<^verbatim>\<open>BloomFilter(size, num_hashes)\<close> raises
  \<^verbatim>\<open>ValueError\<close> when either argument is not an integer or is not positive, and otherwise
  returns a filter with \<open>size\<close> zero bits; \<^verbatim>\<open>HyperLogLog(p)\<close> raises \<^verbatim>\<open>ValueError\<close> for a
  negative integer \<open>p\<close> and, for every integer \<open>p \<ge> 0\<close>, returns an estimator with
  \<open>2^p\<close> zero registers.
\<close>

theorem construction_validation:
  "((as_int size_arg = None \<or> as_int num_arg = None
       \<or> (\<exists>n. as_int size_arg = Some n \<and> n \<le> 0) \<or> (\<exists>n. as_int num_arg = Some n \<and> n \<le> 0))
      \<longrightarrow> BloomFilter_init size_arg num_arg = Inl ValueError)
   \<and> (\<forall>sz k. as_int size_arg = Some sz \<and> 0 < sz \<and> as_int num_arg = Some k \<and> 0 < k \<longrightarrow>
         BloomFilter_init size_arg num_arg =
           Inr \<lparr>bf_size = sz, num_hashes = k, bit_array = replicate (nat sz) 0\<rparr>)
   \<and> (\<forall>pp. as_int p_arg = Some pp \<and> pp < 0 \<longrightarrow> HyperLogLog_init p_arg = Inl ValueError)
   \<and> (\<forall>pp. as_int p_arg = Some pp \<and> 0 \<le> pp \<longrightarrow>
         (\<exists>a. HyperLogLog_init p_arg =
            Inr \<lparr>hll_p = pp, hll_m = 2 ^ nat pp, registers = replicate (2 ^ nat pp) 0,
                 alpha = a\<rparr>))"
proof (intro conjI allI impI)
  assume "as_int size_arg = None \<or> as_int num_arg = None
       \<or> (\<exists>n. as_int size_arg = Some n \<and> n \<le> 0) \<or> (\<exists>n. as_int num_arg = Some n \<and> n \<le> 0)"
  then show "BloomFilter_init size_arg num_arg = Inl ValueError"
    by (auto simp: BloomFilter_init_def split: option.splits)
next
  fix sz k
  assume "as_int size_arg = Some sz \<and> 0 < sz \<and> as_int num_arg = Some k \<and> 0 < k"
  then show "BloomFilter_init size_arg num_arg =
           Inr \<lparr>bf_size = sz, num_hashes = k, bit_array = replicate (nat sz) 0\<rparr>"
    by (simp add: BloomFilter_init_def)
next
  fix pp assume "as_int p_arg = Some pp \<and> pp < 0"
  then show "HyperLogLog_init p_arg = Inl ValueError"
    by (simp add: HyperLogLog_init_def)
next
  fix pp assume "as_int p_arg = Some pp \<and> 0 \<le> pp"
  then show "\<exists>a. HyperLogLog_init p_arg =
            Inr \<lparr>hll_p = pp, hll_m = 2 ^ nat pp, registers = replicate (2 ^ nat pp) 0,
                 alpha = a\<rparr>"
    using hll_init_ok [of p_arg pp] by simp
qed

theorem construction_validation_witness:
  "BloomFilter_init (PyInt 0) (PyInt 3) = Inl ValueError
   \<and> BloomFilter_init (PyInt 1000) (PyFloat 3) = Inl ValueError
   \<and> BloomFilter_init (PyInt 1000) (PyInt 3) =
       Inr \<lparr>bf_size = 1000, num_hashes = 3, bit_array = replicate 1000 0\<rparr>
   \<and> HyperLogLog_init (PyInt (- 1)) = Inl ValueError
   \<and> (\<exists>a. HyperLogLog_init (PyInt 14) =
         Inr \<lparr>hll_p = 14, hll_m = 16384, registers = replicate 16384 0, alpha = a\<rparr>)"
  using construction_validation [of "PyInt 0" "PyInt 3" "PyInt (- 1)"]
    construction_validation [of "PyInt 1000" "PyFloat 3" "PyInt 14"]
    construction_validation [of "PyInt 1000" "PyInt 3" "PyInt 14"]
  by simp

text \<open>
  C4 as stated fails at precision 0, which is not positive: \<^verbatim>\<open>HyperLogLog(0)\<close> raises
  nothing and returns an estimator with one register.
\<close>

theorem construction_counterexample:
  "HyperLogLog_init (PyInt 0) =
     Inr \<lparr>hll_p = 0, hll_m = 1, registers = [0], alpha = 7213 / 20790\<rparr>"
  by (simp add: HyperLogLog_init_def HyperLogLog_get_alpha_def Let_def)

section \<open>Concrete runs\<close>

theorem count_formula_witness:
  "hll_wf \<lparr>hll_p = 4, hll_m = 16, registers = [0, 0, 0, 0, 0, 0, 0, 0, 0, 0, 0, 0, 0, 0, 0, 0], alpha = 0.673\<rparr>
   \<and> HyperLogLog_count \<lparr>hll_p = 4, hll_m = 16, registers = [0, 0, 0, 0, 0, 0, 0, 0, 0, 0, 0, 0, 0, 0, 0, 0], alpha = 0.673\<rparr> = Inr 0"
proof -
  have small: "spec_small_range 0.673 16 [0, 0, 0, 0, 0, 0, 0, 0, 0, 0, 0, 0, 0, 0, 0, 0] = 0"
    by (simp add: spec_small_range_def Let_def)
  then have est: "spec_estimate 0.673 16 [0, 0, 0, 0, 0, 0, 0, 0, 0, 0, 0, 0, 0, 0, 0, 0] = 0"
    by (simp add: spec_estimate_def Let_def)
  from count_formula [OF hll_wf_4] small est
  have "HyperLogLog_count \<lparr>hll_p = 4, hll_m = 16, registers = [0, 0, 0, 0, 0, 0, 0, 0, 0, 0, 0, 0, 0, 0, 0, 0], alpha = 0.673\<rparr> = Inr 0" by simp
  with hll_wf_4 show ?thesis by blast
qed

text \<open>
  C2 as stated fails where every one of the 16 registers of an estimator with \<open>p = 4\<close>
  holds the sentinel 29: \<open>Z = 2^(-25)\<close>, \<open>E = 0.673 * 2^33 > 2^32\<close>, \<open>V = 0\<close>, and
  \<^verbatim>\<open>math.log(1 - E / 2**32)\<close> raises instead of returning a final \<open>E\<close>.
\<close>

theorem count_raises_counterexample:
  "HyperLogLog_count \<lparr>hll_p = 4, hll_m = 16, registers = [29, 29, 29, 29, 29, 29, 29, 29, 29, 29, 29, 29, 29, 29, 29, 29], alpha = 0.673\<rparr> = Inl ValueError"
  by (simp add: HyperLogLog_count_def harmonic_sum_def small_range_def large_range_def
      math_log_def Let_def)

theorem zero_state_estimate_witness:
  "HyperLogLog_init (PyInt 4) = Inr \<lparr>hll_p = 4, hll_m = 16, registers = [0, 0, 0, 0, 0, 0, 0, 0, 0, 0, 0, 0, 0, 0, 0, 0], alpha = 0.673\<rparr>
   \<and> HyperLogLog_count \<lparr>hll_p = 4, hll_m = 16, registers = [0, 0, 0, 0, 0, 0, 0, 0, 0, 0, 0, 0, 0, 0, 0, 0], alpha = 0.673\<rparr> = Inr 0"
  using zero_state_estimate [OF hll_init_4] hll_init_4 by blast

theorem estimator_idempotence_witness:
  "hll_wf \<lparr>hll_p = 4, hll_m = 16, registers = [0, 0, 0, 0, 0, 0, 0, 0, 0, 0, 0, 0, 0, 0, 0, 0], alpha = 0.673\<rparr>
   \<and> HyperLogLog_add mmh3_hash \<lparr>hll_p = 4, hll_m = 16, registers = [0, 0, 0, 0, 0, 0, 0, 0, 0, 0, 0, 0, 0, 0, 0, 0], alpha = 0.673\<rparr> None = Some (Inr \<lparr>hll_p = 4, hll_m = 16, registers = [0, 0, 0, 0, 0, 0, 0, 0, 0, 6, 0, 0, 0, 0, 0, 0], alpha = 0.673\<rparr>)
   \<and> HyperLogLog_add_all mmh3_hash \<lparr>hll_p = 4, hll_m = 16, registers = [0, 0, 0, 0, 0, 0, 0, 0, 0, 6, 0, 0, 0, 0, 0, 0], alpha = 0.673\<rparr> [None, None] = Some (Inr \<lparr>hll_p = 4, hll_m = 16, registers = [0, 0, 0, 0, 0, 0, 0, 0, 0, 6, 0, 0, 0, 0, 0, 0], alpha = 0.673\<rparr>)
   \<and> HyperLogLog_add_all mmh3_hash \<lparr>hll_p = 4, hll_m = 16, registers = [0, 0, 0, 0, 0, 0, 0, 0, 0, 0, 0, 0, 0, 0, 0, 0], alpha = 0.673\<rparr> [None, None, None] = Some (Inr \<lparr>hll_p = 4, hll_m = 16, registers = [0, 0, 0, 0, 0, 0, 0, 0, 0, 6, 0, 0, 0, 0, 0, 0], alpha = 0.673\<rparr>)"
  using estimator_idempotence [of "\<lparr>hll_p = 4, hll_m = 16, registers = [0, 0, 0, 0, 0, 0, 0, 0, 0, 0, 0, 0, 0, 0, 0, 0], alpha = 0.673\<rparr>" mmh3_hash None "Suc (Suc 0)"] hll_wf_4 hll_add_None_4
  by simp

theorem harmonic_sum_positive_witness:
  "registers \<lparr>hll_p = 4, hll_m = 16, registers = [0, 0, 0, 0, 0, 0, 0, 0, 0, 6, 0, 0, 0, 0, 0, 0], alpha = 0.673\<rparr> \<noteq> []
   \<and> list_all (\<lambda>r. r \<le> 29) (registers \<lparr>hll_p = 4, hll_m = 16, registers = [0, 0, 0, 0, 0, 0, 0, 0, 0, 6, 0, 0, 0, 0, 0, 0], alpha = 0.673\<rparr>)
   \<and> 0 < harmonic_sum (registers \<lparr>hll_p = 4, hll_m = 16, registers = [0, 0, 0, 0, 0, 0, 0, 0, 0, 6, 0, 0, 0, 0, 0, 0], alpha = 0.673\<rparr>)
   \<and> HyperLogLog_count \<lparr>hll_p = 4, hll_m = 16, registers = [0, 0, 0, 0, 0, 0, 0, 0, 0, 6, 0, 0, 0, 0, 0, 0], alpha = 0.673\<rparr> \<noteq> Inl ZeroDivisionError
   \<and> real (length (registers \<lparr>hll_p = 4, hll_m = 16, registers = [0, 0, 0, 0, 0, 0, 0, 0, 0, 6, 0, 0, 0, 0, 0, 0], alpha = 0.673\<rparr>)) * 2 powi (- 29) \<le> harmonic_sum (registers \<lparr>hll_p = 4, hll_m = 16, registers = [0, 0, 0, 0, 0, 0, 0, 0, 0, 6, 0, 0, 0, 0, 0, 0], alpha = 0.673\<rparr>)"
  using harmonic_sum_positive [of "\<lparr>hll_p = 4, hll_m = 16, registers = [0, 0, 0, 0, 0, 0, 0, 0, 0, 6, 0, 0, 0, 0, 0, 0], alpha = 0.673\<rparr>" 29] by simp

theorem registers_bounded_witness:
  "HyperLogLog_init (PyInt 4) = Inr \<lparr>hll_p = 4, hll_m = 16, registers = [0, 0, 0, 0, 0, 0, 0, 0, 0, 0, 0, 0, 0, 0, 0, 0], alpha = 0.673\<rparr>
   \<and> (0::int) < 4 \<and> (4::int) \<le> 32
   \<and> (\<exists>s. HyperLogLog_add_all mmh3_hash \<lparr>hll_p = 4, hll_m = 16, registers = [0, 0, 0, 0, 0, 0, 0, 0, 0, 0, 0, 0, 0, 0, 0, 0], alpha = 0.673\<rparr> [None, Some ''foo''] = Some (Inr s)
          \<and> list_all (\<lambda>r. 0 \<le> r \<and> r \<le> 32 - 4 + 1) (registers s))"
  using registers_bounded [OF hll_init_4, of mmh3_hash "[None, Some ''foo'']"] hll_init_4
  by simp

theorem estimator_add_semantics_witness:
  "hll_wf \<lparr>hll_p = 4, hll_m = 16, registers = [0, 0, 0, 0, 0, 0, 0, 0, 0, 0, 0, 0, 0, 0, 0, 0], alpha = 0.673\<rparr>
   \<and> (\<exists>v. lsb_position 191819232 v
          \<and> HyperLogLog_add mmh3_hash \<lparr>hll_p = 4, hll_m = 16, registers = [0, 0, 0, 0, 0, 0, 0, 0, 0, 0, 0, 0, 0, 0, 0, 0], alpha = 0.673\<rparr> None =
              Some (Inr (\<lparr>hll_p = 4, hll_m = 16, registers = [0, 0, 0, 0, 0, 0, 0, 0, 0, 0, 0, 0, 0, 0, 0, 0], alpha = 0.673\<rparr>\<lparr>registers := (registers \<lparr>hll_p = 4, hll_m = 16, registers = [0, 0, 0, 0, 0, 0, 0, 0, 0, 0, 0, 0, 0, 0, 0, 0], alpha = 0.673\<rparr>)[9 := max (registers \<lparr>hll_p = 4, hll_m = 16, registers = [0, 0, 0, 0, 0, 0, 0, 0, 0, 0, 0, 0, 0, 0, 0, 0], alpha = 0.673\<rparr> ! 9) v]\<rparr>)))"
proof -
  have x: "uint (mmh3_hash (py_str None)) = 3069107721"
    by (simp add: py_str_def mmh3_hash_None)
  have j: "take_bit 4 (3069107721::int) = 9" by (simp add: take_bit_eq_mod)
  have w: "drop_bit 4 (3069107721::int) = 191819232" by (simp add: drop_bit_eq_div)
  from estimator_add_semantics [OF hll_wf_4, of mmh3_hash None]
  have "\<exists>v. lsb_position 191819232 v
          \<and> HyperLogLog_add mmh3_hash \<lparr>hll_p = 4, hll_m = 16, registers = [0, 0, 0, 0, 0, 0, 0, 0, 0, 0, 0, 0, 0, 0, 0, 0], alpha = 0.673\<rparr> None =
              Some (Inr (\<lparr>hll_p = 4, hll_m = 16, registers = [0, 0, 0, 0, 0, 0, 0, 0, 0, 0, 0, 0, 0, 0, 0, 0], alpha = 0.673\<rparr>\<lparr>registers := (registers \<lparr>hll_p = 4, hll_m = 16, registers = [0, 0, 0, 0, 0, 0, 0, 0, 0, 0, 0, 0, 0, 0, 0, 0], alpha = 0.673\<rparr>)[9 := max (registers \<lparr>hll_p = 4, hll_m = 16, registers = [0, 0, 0, 0, 0, 0, 0, 0, 0, 0, 0, 0, 0, 0, 0, 0], alpha = 0.673\<rparr> ! 9) v]\<rparr>))"
    unfolding Let_def x by (simp add: j w)
  with hll_wf_4 show ?thesis by blast
qed

end
